theory Spec2Isabelle
  imports Complex_Main
begin

section \<open>Uniform transition-count sampling (sample\_uniform.py)\<close>

text \<open>
  The script reads a sparse transition matrix, turns every row into a jump table
  (destination columns and their weights), optionally through a pickled cache,
  and then, trial after trial, draws a fixed number of transitions from every
  state into one count matrix, which it writes after each trial.

  Matrix entries are float64 in the source and reals here; the builder only copies
  them and compares them with zero. Counts are float64 too, incremented by one;
  they are naturals here (exact below \<open>2 ^ 53\<close>).
\<close>

subsection \<open>Errors\<close>

datatype error =
    SystemExit int
  | ValueError
  | IOError
  | KeyError
  | IndexError
  | DegenerateDistributionError

subsection \<open>Sparse matrices in LIL form\<close>

text \<open>
  A \<open>scipy.sparse.lil_matrix\<close> keeps, for every row, the stored column indices
  (ascending) with their values. \<open>shape[0]\<close> is the number of row lists.
\<close>

record 'a lil_matrix =
  ncols :: nat
  rowsdata :: "(nat \<times> 'a) list list"

definition shape0 :: "'a lil_matrix \<Rightarrow> nat" where
  "shape0 M = length (rowsdata M)"

text \<open>The invariant \<open>tolil()\<close> establishes: columns in range and strictly ascending.\<close>

definition lil_wf :: "'a lil_matrix \<Rightarrow> bool" where
  "lil_wf M = list_all (\<lambda>r. sorted_wrt (<) (map fst r) \<and> list_all (\<lambda>c. c < ncols M) (map fst r))
                (rowsdata M)"

text \<open>\<open>M[i,j]\<close> read from row \<open>r\<close>: the stored value, zero when none is stored.\<close>

definition row_get :: "(nat \<times> 'a::zero) list \<Rightarrow> nat \<Rightarrow> 'a" where
  "row_get r j = (case map_of r j of Some v \<Rightarrow> v | None \<Rightarrow> 0)"

definition lil_get :: "('a::zero) lil_matrix \<Rightarrow> nat \<Rightarrow> nat \<Rightarrow> 'a" where
  "lil_get M i j = row_get (rowsdata M ! i) j"

text \<open>\<open>M[i,:].nonzero()[1]\<close>: the columns of the stored entries that are not zero,
  in stored order.\<close>

definition row_nonzero :: "(nat \<times> 'a::zero) list \<Rightarrow> nat list" where
  "row_nonzero r = map fst (filter (\<lambda>cv. snd cv \<noteq> 0) r)"

text \<open>\<^verbatim>\<open>T.todense()\<close>: the matrix as rows of values.\<close>

definition todense :: "real lil_matrix \<Rightarrow> real list list" where
  "todense T = map (\<lambda>i. map (lil_get T i) [0..<ncols T]) [0..<shape0 T]"

subsection \<open>Jump tables (lines 76--87)\<close>

type_synonym jumptable = "nat list \<times> real list"
type_synonym jumps = "nat \<rightharpoonup> jumptable"

text \<open>
  \<^verbatim>\<open>possible_j = T[i,:].nonzero()[1]\<close>,
  \<^verbatim>\<open>jprobs = np.array(T[i,possible_j].todense())\<close>, reshaped to one dimension.
\<close>

definition build_jump :: "real lil_matrix \<Rightarrow> nat \<Rightarrow> jumptable" where
  "build_jump T i =
     (let possible_j = row_nonzero (rowsdata T ! i);
          jprobs = map (lil_get T i) possible_j
      in (possible_j, jprobs))"


text \<open>What the script prints, by its arguments rather than by its text.\<close>

datatype printed =
    PUsage
  | PMatrix "real lil_matrix"
  | PCantFind string
  | PmInfo string
  | PReadingJumps string
  | PReadDone
  | PMaking
  | PJump nat jumptable
  | PPickling string
  | PDone
  | PSampled int int

text \<open>The effects of a run, in order: lines printed, files opened for reading,
  files written.\<close>

datatype event =
    Print printed
  | Read string
  | WriteJumps string jumps
  | WriteMtx string "nat lil_matrix"

text \<open>
  The loop of lines 78--87 over the states still to do, threading the dictionary
  and the output: \<^verbatim>\<open>jumps[i] = (possible_j, jprobs)\<close>, printed when
  \<^verbatim>\<open>i%100 == 0\<close>.
\<close>

fun build_loop :: "real lil_matrix \<Rightarrow> nat list \<Rightarrow> jumps \<times> event list \<Rightarrow> jumps \<times> event list" where
  "build_loop T [] s = s"
| "build_loop T (i # is) (jumps, out) =
     (let jt = build_jump T i;
          jumps' = jumps(i \<mapsto> jt);
          out' = (if i mod 100 = 0 then out @ [Print (PJump i jt)] else out)
      in build_loop T is (jumps', out'))"

definition build_all :: "real lil_matrix \<Rightarrow> jumps" where
  "build_all T = fst (build_loop T [0..<shape0 T] (Map.empty, []))"

subsection \<open>The environment\<close>

text \<open>
  The file system and the external readers, as the run finds them:
  \<^verbatim>\<open>os.path.exists\<close>, \<^verbatim>\<open>mmread\<close> followed by \<^verbatim>\<open>tolil()\<close>,
  \<^verbatim>\<open>MicrostateInfo\<close> (only its printed form is used), \<^verbatim>\<open>pickle.load\<close> of
  an opened file, and whether a file can be written.
\<close>

record world =
  path_exists :: "string \<Rightarrow> bool"
  mmread :: "string \<Rightarrow> error + real lil_matrix"
  MicrostateInfo :: "string \<Rightarrow> error + string"
  pickle_load :: "string \<Rightarrow> error + jumps"
  writable :: "string \<Rightarrow> bool"

subsection \<open>The jump-table cache (lines 67--93)\<close>

text \<open>
  An existing \<^verbatim>\<open>.jumps\<close> file is loaded as it is. Otherwise the tables are
  built and pickled; nothing catches a failure of \<^verbatim>\<open>open(jumpFn,'w')\<close> or of
  \<^verbatim>\<open>pickle.dump\<close>.
\<close>

definition get_jumps :: "world \<Rightarrow> string \<Rightarrow> real lil_matrix \<Rightarrow> event list \<times> (error + jumps)" where
  "get_jumps w microTFn T =
     (let jumpFn = microTFn @ ''.jumps'' in
      if path_exists w jumpFn then
        (case pickle_load w jumpFn of
           Inl e \<Rightarrow> ([Print (PReadingJumps jumpFn), Read jumpFn], Inl e)
         | Inr jumps \<Rightarrow> ([Print (PReadingJumps jumpFn), Read jumpFn, Print PReadDone], Inr jumps))
      else
        (let built = build_loop T [0..<shape0 T] (Map.empty, [Print PMaking]);
             jumps = fst built;
             out = snd built @ [Print (PPickling jumpFn)]
         in if writable w jumpFn then (out @ [WriteJumps jumpFn jumps, Print PDone], Inr jumps)
            else (out, Inl IOError)))"

subsection \<open>The count matrix (lines 95 and 112)\<close>

text \<open>\<^verbatim>\<open>scipy.sparse.lil_matrix((N, N))\<close>: no stored entry.\<close>

definition lil_empty :: "nat \<Rightarrow> nat lil_matrix" where
  "lil_empty N = \<lparr>ncols = N, rowsdata = replicate N []\<rparr>"

text \<open>\<^verbatim>\<open>row[j] += 1\<close> on a LIL row: the entry is incremented where it is stored,
  and inserted at its sorted place with value one where it is not.\<close>

fun row_inc :: "(nat \<times> nat) list \<Rightarrow> nat \<Rightarrow> (nat \<times> nat) list" where
  "row_inc [] j = [(j, 1)]"
| "row_inc ((c, v) # r) j =
     (if j < c then (j, 1) # (c, v) # r
      else if j = c then (c, v + 1) # r
      else (c, v) # row_inc r j)"

text \<open>\<^verbatim>\<open>C[i,j] += 1\<close>; an index outside the matrix raises.\<close>

definition lil_inc :: "nat lil_matrix \<Rightarrow> nat \<Rightarrow> nat \<Rightarrow> error + nat lil_matrix" where
  "lil_inc C i j =
     (if i < shape0 C \<and> j < ncols C
      then Inr (C\<lparr>rowsdata := (rowsdata C)[i := row_inc (rowsdata C ! i) j]\<rparr>)
      else Inl IndexError)"


subsection \<open>Sampling (lines 98--117)\<close>

text \<open>
  \<^verbatim>\<open>draw_index\<close> comes from \<^verbatim>\<open>HelperTools\<close>, which is not among the
  sources: the loops take it as a parameter \<open>draw\<close>, from the weights and the state
  of the random source to an error or an index and the next state.

  Line 111, \<^verbatim>\<open>j = possible_j[draw_index(jprobs)]\<close>: an index outside
  \<^verbatim>\<open>possible_j\<close> raises.
\<close>

definition draw_j :: "(real list \<Rightarrow> 'g \<Rightarrow> error + nat \<times> 'g) \<Rightarrow> jumptable \<Rightarrow> 'g \<Rightarrow> error + nat \<times> 'g" where
  "draw_j draw jt g =
     (case draw (snd jt) g of
        Inl e \<Rightarrow> Inl e
      | Inr (k, g') \<Rightarrow> if k < length (fst jt) then Inr (fst jt ! k, g') else Inl IndexError)"

text \<open>Lines 110--112 for state \<open>i\<close>: \<open>n\<close> rounds of draw and increment.\<close>

fun sample_loop ::
  "(real list \<Rightarrow> 'g \<Rightarrow> error + nat \<times> 'g) \<Rightarrow> nat \<Rightarrow> jumptable \<Rightarrow> nat \<Rightarrow> nat lil_matrix \<times> 'g
     \<Rightarrow> error + nat lil_matrix \<times> 'g" where
  "sample_loop draw i jt 0 s = Inr s"
| "sample_loop draw i jt (Suc n) (C, g) =
     (case draw_j draw jt g of
        Inl e \<Rightarrow> Inl e
      | Inr (j, g') \<Rightarrow>
          (case lil_inc C i j of
             Inl e \<Rightarrow> Inl e
           | Inr C' \<Rightarrow> sample_loop draw i jt n (C', g')))"

text \<open>
  The destinations that \<open>n\<close> rounds of line 111 draw, as a sequence (the samples of one
  request, before they are counted).
\<close>

fun sample :: "(real list \<Rightarrow> 'g \<Rightarrow> error + nat \<times> 'g) \<Rightarrow> jumptable \<Rightarrow> nat \<Rightarrow> 'g \<Rightarrow> error + nat list \<times> 'g" where
  "sample draw jt 0 g = Inr ([], g)"
| "sample draw jt (Suc n) g =
     (case draw_j draw jt g of
        Inl e \<Rightarrow> Inl e
      | Inr (j, g') \<Rightarrow>
          (case sample draw jt n g' of
             Inl e \<Rightarrow> Inl e
           | Inr (js, g'') \<Rightarrow> Inr (j # js, g'')))"

text \<open>Counting a sequence of destinations of state \<open>i\<close>, one after the other.\<close>

fun record_all :: "nat lil_matrix \<Rightarrow> nat \<Rightarrow> nat list \<Rightarrow> error + nat lil_matrix" where
  "record_all C i [] = Inr C"
| "record_all C i (j # js) =
     (case lil_inc C i j of Inl e \<Rightarrow> Inl e | Inr C' \<Rightarrow> record_all C' i js)"

text \<open>
  Lines 100--112, over the states still to do. \<^verbatim>\<open>jumps[i]\<close> raises on a missing
  key; \<^verbatim>\<open>range(NumSamplesPerState[i])\<close> is empty for a negative number.
\<close>

fun states_loop ::
  "(real list \<Rightarrow> 'g \<Rightarrow> error + nat \<times> 'g) \<Rightarrow> jumps \<Rightarrow> int \<Rightarrow> nat list \<Rightarrow> nat lil_matrix \<times> 'g
     \<Rightarrow> error + nat lil_matrix \<times> 'g" where
  "states_loop draw jumps nsamples [] s = Inr s"
| "states_loop draw jumps nsamples (i # is) s =
     (case jumps i of
        None \<Rightarrow> Inl KeyError
      | Some jt \<Rightarrow>
          (case sample_loop draw i jt (nat nsamples) s of
             Inl e \<Rightarrow> Inl e
           | Inr s' \<Rightarrow> states_loop draw jumps nsamples is s'))"

subsection \<open>Decimal numbers in arguments and file names\<close>

definition digit_char :: "nat \<Rightarrow> char" where
  "digit_char d = ''0123456789'' ! d"

fun str_nat :: "nat \<Rightarrow> string" where
  "str_nat n = (if n < 10 then [digit_char n] else str_nat (n div 10) @ [digit_char (n mod 10)])"

declare str_nat.simps [simp del]

text \<open>\<^verbatim>\<open>'%d' % i\<close>.\<close>

definition str_int :: "int \<Rightarrow> string" where
  "str_int i = (if i < 0 then CHR ''-'' # str_nat (nat (- i)) else str_nat (nat i))"

text \<open>\<^verbatim>\<open>'tCounts.uniform.%s.%d.%d.mtx'%(outName,nsamples,trial)\<close>.\<close>

definition mtx_name :: "string \<Rightarrow> int \<Rightarrow> nat \<Rightarrow> string" where
  "mtx_name outName nsamples trial =
     ''tCounts.uniform.'' @ outName @ ''.'' @ str_int nsamples @ ''.'' @ str_int (int trial) @ ''.mtx''"

definition digit_value :: "char \<Rightarrow> nat option" where
  "digit_value c =
     map_of [(CHR ''0'', 0), (CHR ''1'', 1), (CHR ''2'', 2), (CHR ''3'', 3), (CHR ''4'', 4),
             (CHR ''5'', 5), (CHR ''6'', 6), (CHR ''7'', 7), (CHR ''8'', 8), (CHR ''9'', 9)] c"

fun digits_value :: "nat \<Rightarrow> string \<Rightarrow> nat option" where
  "digits_value acc [] = Some acc"
| "digits_value acc (c # cs) =
     (case digit_value c of None \<Rightarrow> None | Some d \<Rightarrow> digits_value (10 * acc + d) cs)"

definition is_space :: "char \<Rightarrow> bool" where
  "is_space c = (c \<in> set [CHR '' '', CHR 0x09, CHR 0x0A, CHR 0x0B, CHR 0x0C, CHR 0x0D])"

definition strip :: "string \<Rightarrow> string" where
  "strip s = rev (dropWhile is_space (rev (dropWhile is_space s)))"

text \<open>\<^verbatim>\<open>int(s)\<close> on a command-line argument: white space around, an optional sign,
  then decimal digits, at least one; anything else raises \<^verbatim>\<open>ValueError\<close>.\<close>

definition py_int :: "string \<Rightarrow> error + int" where
  "py_int s =
     (let t = strip s;
          neg = (t \<noteq> [] \<and> hd t = CHR ''-'');
          ds = (if t \<noteq> [] \<and> (hd t = CHR ''-'' \<or> hd t = CHR ''+'') then tl t else t)
      in if ds = [] then Inl ValueError
         else (case digits_value 0 ds of
                 None \<Rightarrow> Inl ValueError
               | Some n \<Rightarrow> Inr (if neg then - int n else int n)))"

subsection \<open>The trials (lines 95--119)\<close>

text \<open>
  One round of the trial loop on the state it carries from round to round: the
  count matrix, \<^verbatim>\<open>TotalCounts\<close> and the random source. Line 115 reads
  \<^verbatim>\<open>NumSamplesPerState[0]\<close>, which raises when there is no state.
\<close>

definition trial_body ::
  "(real list \<Rightarrow> 'g \<Rightarrow> error + nat \<times> 'g) \<Rightarrow> world \<Rightarrow> jumps \<Rightarrow> nat \<Rightarrow> int \<Rightarrow> string \<Rightarrow> nat
     \<Rightarrow> nat lil_matrix \<times> int \<times> 'g \<Rightarrow> event list \<times> (error + nat lil_matrix \<times> int \<times> 'g)" where
  "trial_body draw w jumps NumStates nsamples outName trial s =
     (case states_loop draw jumps nsamples [0..<NumStates] (fst s, snd (snd s)) of
        Inl e \<Rightarrow> ([], Inl e)
      | Inr (C, g) \<Rightarrow>
          (let TotalCounts = fst (snd s) + int NumStates * nsamples in
           if NumStates = 0 then ([], Inl IndexError)
           else
             (let out = [Print (PSampled (int trial * nsamples) TotalCounts)];
                  fn = mtx_name outName nsamples trial
              in if writable w fn then (out @ [WriteMtx fn C], Inr (C, TotalCounts, g))
                 else (out, Inl IOError))))"

fun trials_loop ::
  "(real list \<Rightarrow> 'g \<Rightarrow> error + nat \<times> 'g) \<Rightarrow> world \<Rightarrow> jumps \<Rightarrow> nat \<Rightarrow> int \<Rightarrow> string \<Rightarrow> nat list
     \<Rightarrow> nat lil_matrix \<times> int \<times> 'g \<Rightarrow> event list \<times> (error + nat lil_matrix \<times> int \<times> 'g)" where
  "trials_loop draw w jumps NumStates nsamples outName [] s = ([], Inr s)"
| "trials_loop draw w jumps NumStates nsamples outName (trial # ts) s =
     (case trial_body draw w jumps NumStates nsamples outName trial s of
        (out, Inl e) \<Rightarrow> (out, Inl e)
      | (out, Inr s') \<Rightarrow>
          (case trials_loop draw w jumps NumStates nsamples outName ts s' of
             (out', r) \<Rightarrow> (out @ out', r)))"

subsection \<open>The script\<close>

text \<open>
  Lines 41--119, the main program on the converted arguments: the matrix file must
  exist and is read, the microstate file is read, the jump tables are loaded or built,
  and the trials run on one count matrix created before the first of them. \<open>g\<close> is the
  random source at the start. The result is what the run did and how it ended.
\<close>

definition main_program ::
  "(real list \<Rightarrow> 'g \<Rightarrow> error + nat \<times> 'g) \<Rightarrow> world \<Rightarrow> string \<Rightarrow> string \<Rightarrow> int \<Rightarrow> int \<Rightarrow> string \<Rightarrow> 'g
     \<Rightarrow> event list \<times> (error + unit)" where
  "main_program draw w microTFn microstatesFn nsamples ntrials outName g =
     (if \<not> path_exists w microTFn then ([Print (PCantFind microTFn)], Inl (SystemExit 1))
      else
        (case mmread w microTFn of
           Inl e \<Rightarrow> ([Read microTFn], Inl e)
         | Inr T \<Rightarrow>
             (case MicrostateInfo w microstatesFn of
                Inl e \<Rightarrow> ([Read microTFn, Print (PMatrix T), Read microstatesFn], Inl e)
              | Inr mInfo \<Rightarrow>
                  (let out = [Read microTFn, Print (PMatrix T), Read microstatesFn,
                              Print (PmInfo mInfo)]
                   in (case get_jumps w microTFn T of
                         (out1, Inl e) \<Rightarrow> (out @ out1, Inl e)
                       | (out1, Inr jumps) \<Rightarrow>
                           (case trials_loop draw w jumps (shape0 T) nsamples outName
                                   [0..<nat ntrials] (lil_empty (shape0 T), 0, g) of
                              (out2, Inl e) \<Rightarrow> (out @ out1 @ out2, Inl e)
                            | (out2, Inr s) \<Rightarrow> (out @ out1 @ out2, Inr ())))))))"

text \<open>Lines 30--38. \<open>argv\<close> is \<^verbatim>\<open>sys.argv\<close>, the script's name first: the
  argument count is checked first, then the two numbers are converted.\<close>

definition sample_uniform ::
  "(real list \<Rightarrow> 'g \<Rightarrow> error + nat \<times> 'g) \<Rightarrow> world \<Rightarrow> string list \<Rightarrow> 'g \<Rightarrow> event list \<times> (error + unit)" where
  "sample_uniform draw w argv g =
     (if length argv < 6 then ([Print PUsage], Inl (SystemExit 1))
      else
        (case py_int (argv ! 3) of
           Inl e \<Rightarrow> ([], Inl e)
         | Inr nsamples \<Rightarrow>
             (case py_int (argv ! 4) of
                Inl e \<Rightarrow> ([], Inl e)
              | Inr ntrials \<Rightarrow>
                  main_program draw w (argv ! 1) (argv ! 2) nsamples ntrials (argv ! 5) g)))"

text \<open>The count matrices a run wrote, in order, and the files it opened for reading.\<close>

fun mtx_writes :: "event list \<Rightarrow> (string \<times> nat lil_matrix) list" where
  "mtx_writes [] = []"
| "mtx_writes (WriteMtx fn C # es) = (fn, C) # mtx_writes es"
| "mtx_writes (e # es) = mtx_writes es"

fun reads :: "event list \<Rightarrow> string list" where
  "reads [] = []"
| "reads (Read fn # es) = fn # reads es"
| "reads (e # es) = reads es"

subsection \<open>The weighted draw\<close>

text \<open>
  Modelled from the spec: the search inside \<^verbatim>\<open>draw_index\<close> of \<^verbatim>\<open>HelperTools\<close>,
  which is missing from the sources. Section 4.1: the smallest index \<open>k\<close> such that the
  cumulative sum of \<open>weights[0..k]\<close> exceeds \<open>u\<close>; \<open>acc\<close> is the sum so far.
\<close>

fun first_exceeding :: "real list \<Rightarrow> real \<Rightarrow> real \<Rightarrow> nat" where
  "first_exceeding [] acc u = 0"
| "first_exceeding (x # xs) acc u =
     (if acc + x > u then 0 else Suc (first_exceeding xs (acc + x) u))"

text \<open>
  Modelled from the spec: \<^verbatim>\<open>draw_index\<close> of \<^verbatim>\<open>HelperTools\<close> is missing from
  the sources. Section 4.1: it fails with \<open>DegenerateDistributionError\<close> if the sum is
  zero or the sequence is empty; otherwise it generates a uniform \<open>u\<close> in
  \<open>[0, total_weight)\<close> and returns the smallest index whose cumulative sum exceeds
  \<open>u\<close>. The random source is the sequence of 53-bit integers it will deliver, one
  consumed per draw.
\<close>

definition draw_index :: "real list \<Rightarrow> (nat \<Rightarrow> nat) \<Rightarrow> error + nat \<times> (nat \<Rightarrow> nat)" where
  "draw_index weights g =
     (let total = sum_list weights in
      if weights = [] \<or> total = 0 then Inl DegenerateDistributionError
      else (let u = total * (real (g 0 mod 2 ^ 53) / 2 ^ 53)
            in Inr (first_exceeding weights 0 u, \<lambda>n. g (Suc n))))"

subsection \<open>Example inputs\<close>

definition T_example :: "real lil_matrix" where
  "T_example = \<lparr>ncols = 10, rowsdata = [[(2, 1/10), (5, 3/10), (9, 6/10)], [(0, 0), (4, 1)]]\<rparr>"

definition T_chain :: "real lil_matrix" where
  "T_chain = \<lparr>ncols = 3, rowsdata = [[(1, 1)], [(2, 1)], [(0, 1)]]\<rparr>"

definition T_zero_row :: "real lil_matrix" where
  "T_zero_row = \<lparr>ncols = 2, rowsdata = [[(0, 0), (1, 0)], [(0, 1)]]\<rparr>"

text \<open>A directory with the matrix file and the microstate file, no cache file, and
  every file writable; and the same directory where the cache cannot be written.\<close>

definition world_fresh :: "real lil_matrix \<Rightarrow> world" where
  "world_fresh T =
     \<lparr>path_exists = (\<lambda>fn. fn = ''T.mtx'' \<or> fn = ''micro.dat''),
      mmread = (\<lambda>fn. if fn = ''T.mtx'' then Inr T else Inl IOError),
      MicrostateInfo = (\<lambda>fn. if fn = ''micro.dat'' then Inr ''mInfo'' else Inl IOError),
      pickle_load = (\<lambda>fn. Inl IOError),
      writable = (\<lambda>fn. True)\<rparr>"

definition world_readonly_cache :: "real lil_matrix \<Rightarrow> world" where
  "world_readonly_cache T = (world_fresh T)\<lparr>writable := (\<lambda>fn. fn \<noteq> ''T.mtx.jumps'')\<rparr>"

definition rng_zero :: "nat \<Rightarrow> nat" where
  "rng_zero = (\<lambda>n. 0)"

text \<open>The count matrix of the three-state cycle after \<open>m\<close> samples per state.\<close>

definition chain_counts :: "nat \<Rightarrow> nat lil_matrix" where
  "chain_counts m =
     (if m = 0 then lil_empty 3 else \<lparr>ncols = 3, rowsdata = [[(1, m)], [(2, m)], [(0, m)]]\<rparr>)"

text \<open>What the trials \<open>ts\<close> write for the cycle, \<open>n\<close> samples per state, after \<open>m\<close>.\<close>

fun chain_writes :: "string \<Rightarrow> nat \<Rightarrow> nat \<Rightarrow> nat list \<Rightarrow> (string \<times> nat lil_matrix) list" where
  "chain_writes outName n m [] = []"
| "chain_writes outName n m (t # ts) =
     (mtx_name outName (int n) t, chain_counts (m + n)) # chain_writes outName n (m + n) ts"

definition argv_example :: "string list" where
  "argv_example = [''sample_uniform.py'', ''T.mtx'', ''micro.dat'', ''100'', ''1'', ''out'']"

definition argv_two :: "string list" where
  "argv_two = [''sample_uniform.py'', ''T.mtx'', ''micro.dat'', ''2'', ''2'', ''out'']"

text \<open>The identity matrix on three states, the jump tables of the cycle, and a directory
  whose cache file holds these tables whatever the matrix file holds.\<close>

definition T_identity :: "real lil_matrix" where
  "T_identity = \<lparr>ncols = 3, rowsdata = [[(0, 1)], [(1, 1)], [(2, 1)]]\<rparr>"

definition jumps_chain :: jumps where
  "jumps_chain = [0 \<mapsto> ([1], [1]), 1 \<mapsto> ([2], [1]), 2 \<mapsto> ([0], [1])]"

definition world_cached :: "real lil_matrix \<Rightarrow> world" where
  "world_cached T =
     \<lparr>path_exists = (\<lambda>fn. fn = ''T.mtx'' \<or> fn = ''micro.dat'' \<or> fn = ''T.mtx.jumps''),
      mmread = (\<lambda>fn. if fn = ''T.mtx'' then Inr T else Inl IOError),
      MicrostateInfo = (\<lambda>fn. if fn = ''micro.dat'' then Inr ''mInfo'' else Inl IOError),
      pickle_load = (\<lambda>fn. if fn = ''T.mtx.jumps'' then Inr jumps_chain else Inl IOError),
      writable = (\<lambda>fn. True)\<rparr>"

section \<open>Properties\<close>

subsection \<open>The jump-table builder\<close>

lemma build_loop_fst:
  "fst (build_loop T is (m, out)) = (\<lambda>i. if i \<in> set is then Some (build_jump T i) else m i)"
  by (induction "is" arbitrary: m out) (auto simp: Let_def fun_eq_iff)

lemma build_all_apply:
  "build_all T i = (if i < shape0 T then Some (build_jump T i) else None)"
  by (simp add: build_all_def build_loop_fst)

lemma row_get_stored:
  "distinct (map fst r) \<Longrightarrow> (c, v) \<in> set r \<Longrightarrow> row_get r c = v"
  by (simp add: row_get_def)

lemma row_get_nonzero_iff:
  "distinct (map fst r) \<Longrightarrow> row_get r j \<noteq> 0 \<longleftrightarrow> (\<exists>v. (j, v) \<in> set r \<and> v \<noteq> 0)"
  by (auto simp: row_get_def split: option.splits dest: map_of_SomeD eq_key_imp_eq_value)

lemma weights_of_row:
  "distinct (map fst r) \<Longrightarrow> map (row_get r) (row_nonzero r) = map snd (filter (\<lambda>cv. snd cv \<noteq> 0) r)"
  by (auto simp: row_nonzero_def row_get_stored)

lemma set_row_nonzero:
  "distinct (map fst r) \<Longrightarrow> set (row_nonzero r) = {j. row_get r j \<noteq> 0}"
  by (auto simp: row_get_nonzero_iff) (force simp: row_nonzero_def)+

lemma sorted_row_nonzero:
  "sorted_wrt (<) (map fst r) \<Longrightarrow> sorted_wrt (<) (row_nonzero r)"
  by (simp add: row_nonzero_def sorted_wrt_map sorted_wrt_filter)

lemma lil_wf_row:
  "lil_wf T \<Longrightarrow> i < shape0 T \<Longrightarrow> sorted_wrt (<) (map fst (rowsdata T ! i)) \<and> distinct (map fst (rowsdata T ! i))"
  by (auto simp: lil_wf_def shape0_def list_all_length strict_sorted_iff)

text \<open>
  C5. For a matrix in LIL form, the builder makes a jump table for every state from
  \<open>0\<close> to \<open>N - 1\<close> and for no other key; the table of state \<open>i\<close> has as
  destinations exactly the columns where row \<open>i\<close> is not zero, in the stored
  (ascending) order of the row, and as weights the values at these columns.
\<close>

theorem build_all_jump_tables:
  assumes "lil_wf T"
  shows "dom (build_all T) = {0..<shape0 T} \<and>
         (\<forall>i<shape0 T. \<exists>possible_j jprobs.
            build_all T i = Some (possible_j, jprobs) \<and>
            possible_j = map fst (filter (\<lambda>cv. snd cv \<noteq> 0) (rowsdata T ! i)) \<and>
            jprobs = map snd (filter (\<lambda>cv. snd cv \<noteq> 0) (rowsdata T ! i)) \<and>
            set possible_j = {j. lil_get T i j \<noteq> 0} \<and>
            sorted_wrt (<) possible_j \<and>
            jprobs = map (lil_get T i) possible_j)"
proof (intro conjI allI impI)
  show "dom (build_all T) = {0..<shape0 T}"
    by (auto simp: build_all_apply dom_def)
next
  fix i assume i: "i < shape0 T"
  let ?r = "rowsdata T ! i"
  from lil_wf_row [OF assms i] have s: "sorted_wrt (<) (map fst ?r)" and d: "distinct (map fst ?r)"
    by simp_all
  have get: "lil_get T i = row_get ?r"
    by (simp add: lil_get_def fun_eq_iff)
  have "build_all T i = Some (row_nonzero ?r, map (row_get ?r) (row_nonzero ?r))"
    using i by (simp add: build_all_apply build_jump_def get Let_def)
  moreover have "row_nonzero ?r = map fst (filter (\<lambda>cv. snd cv \<noteq> 0) ?r)"
    by (simp add: row_nonzero_def)
  ultimately show "\<exists>possible_j jprobs.
            build_all T i = Some (possible_j, jprobs) \<and>
            possible_j = map fst (filter (\<lambda>cv. snd cv \<noteq> 0) (rowsdata T ! i)) \<and>
            jprobs = map snd (filter (\<lambda>cv. snd cv \<noteq> 0) (rowsdata T ! i)) \<and>
            set possible_j = {j. lil_get T i j \<noteq> 0} \<and>
            sorted_wrt (<) possible_j \<and>
            jprobs = map (lil_get T i) possible_j"
    using weights_of_row [OF d] set_row_nonzero [OF d] sorted_row_nonzero [OF s]
    by (simp add: get)
qed

text \<open>The theorem at a matrix with the row of the builder's example (columns 2, 5, 9) and
  a row with a stored zero.\<close>

lemma T_example_wf: "lil_wf T_example"
  by (simp add: T_example_def lil_wf_def)

theorem build_all_jump_tables_witness:
  "lil_wf T_example \<and> dom (build_all T_example) = {0..<2} \<and>
   build_all T_example 0 = Some ([2, 5, 9], [1/10, 3/10, 6/10]) \<and>
   build_all T_example 1 = Some ([4], [1])"
proof -
  have sh: "shape0 T_example = 2"
    by (simp add: T_example_def shape0_def)
  have r0: "rowsdata T_example ! 0 = [(2, 1/10), (5, 3/10), (9, 6/10)]"
    and r1: "rowsdata T_example ! Suc 0 = [(0, 0), (4, 1)]"
    by (simp_all add: T_example_def)
  from build_all_jump_tables [OF T_example_wf]
  have d: "dom (build_all T_example) = {0..<2}"
    and a: "\<forall>i<2. build_all T_example i =
          Some (map fst (filter (\<lambda>cv. snd cv \<noteq> 0) (rowsdata T_example ! i)),
                map snd (filter (\<lambda>cv. snd cv \<noteq> 0) (rowsdata T_example ! i)))"
    by (auto simp: sh)
  from a have "build_all T_example 0 = Some ([2, 5, 9], [1/10, 3/10, 6/10])"
    by (simp add: r0)
  moreover from a have "build_all T_example 1 = Some ([4], [1])"
    by (simp add: r1)
  ultimately show ?thesis
    using d T_example_wf by simp
qed

subsection \<open>Counting and sampling\<close>








lemma draw_j_InrD:
  "draw_j draw jt g = Inr (j, g') \<Longrightarrow> j \<in> set (fst jt)"
  by (auto simp: draw_j_def split: sum.splits if_splits)




lemma sample_loop_sample:
  "sample_loop draw i jt n (C, g) = Inr (C', g') \<longleftrightarrow>
     (\<exists>js. sample draw jt n g = Inr (js, g') \<and> record_all C i js = Inr C')"
proof (induction n arbitrary: C g)
  case 0
  then show ?case by auto
next
  case (Suc n)
  show ?case
  proof (cases "draw_j draw jt g")
    case (Inl e)
    then show ?thesis by simp
  next
    case (Inr p)
    obtain j g1 where p: "p = (j, g1)" by (cases p)
    show ?thesis
    proof (cases "lil_inc C i j")
      case (Inl e)
      then show ?thesis
        using Inr p by (auto split: sum.splits)
    next
      case C1: (Inr C1)
      have "sample_loop draw i jt (Suc n) (C, g) = sample_loop draw i jt n (C1, g1)"
        using Inr p C1 by simp
      also have "\<dots> = Inr (C', g') \<longleftrightarrow>
          (\<exists>js. sample draw jt n g1 = Inr (js, g') \<and> record_all C1 i js = Inr C')"
        by (rule Suc.IH)
      also have "\<dots> \<longleftrightarrow>
          (\<exists>js. sample draw jt (Suc n) g = Inr (js, g') \<and> record_all C i js = Inr C')"
        using Inr p C1 by (auto split: sum.splits)
      finally show ?thesis .
    qed
  qed
qed

lemma sample_length_set:
  "sample draw jt n g = Inr (js, g') \<Longrightarrow> length js = n \<and> set js \<subseteq> set (fst jt)"
proof (induction n arbitrary: g js)
  case 0
  then show ?case by simp
next
  case (Suc n)
  from Suc.prems obtain j g1 js1 where
    d: "draw_j draw jt g = Inr (j, g1)" and r: "sample draw jt n g1 = Inr (js1, g')"
    and js: "js = j # js1"
    by (auto split: sum.splits)
  from Suc.IH [OF r] draw_j_InrD [OF d] show ?case
    by (simp add: js)
qed




lemma mtx_writes_append: "mtx_writes (xs @ ys) = mtx_writes xs @ mtx_writes ys"
  by (induction xs rule: mtx_writes.induct) auto

lemma trial_body_InrD:
  assumes "trial_body draw w jumps N ns outName t (C, tot, g) = (out, Inr (C', tot', g'))"
  shows "states_loop draw jumps ns [0..<N] (C, g) = Inr (C', g')"
    and "0 < N" and "tot' = tot + int N * ns"
    and "out = [Print (PSampled (int t * ns) tot'), WriteMtx (mtx_name outName ns t) C']"
    and "writable w (mtx_name outName ns t)"
  using assms by (auto simp: trial_body_def Let_def split: sum.splits if_splits)


lemma trials_loop_Cons_cases:
  assumes "trials_loop draw w jumps N ns outName (t # ts) s = (out, r)"
  obtains (fail) e where "trial_body draw w jumps N ns outName t s = (out, Inl e)" "r = Inl e"
  | (step) out1 s1 out2 where "trial_body draw w jumps N ns outName t s = (out1, Inr s1)"
      "trials_loop draw w jumps N ns outName ts s1 = (out2, r)" "out = out1 @ out2"
  using assms by (auto split: prod.splits sum.splits)

subsection \<open>The trial loop and the script\<close>

lemma trials_loop_names:
  "trials_loop draw w jumps N ns outName ts s = (out, Inr s') \<Longrightarrow>
     map fst (mtx_writes out) = map (mtx_name outName ns) ts"
proof (induction ts arbitrary: s out)
  case Nil
  then show ?case by simp
next
  case (Cons t ts)
  from Cons.prems show ?case
  proof (cases rule: trials_loop_Cons_cases)
    case (fail e)
    then show ?thesis by simp
  next
    case (step out1 s1 out2)
    obtain C tot g where s: "s = (C, tot, g)" by (cases s)
    obtain C1 tot1 g1 where s1: "s1 = (C1, tot1, g1)" by (cases s1)
    from trial_body_InrD(4) [OF step(1) [unfolded s s1]]
    have "mtx_writes out1 = [(mtx_name outName ns t, C1)]" by simp
    with Cons.IH [OF step(2)] step(3) show ?thesis
      by (simp add: mtx_writes_append)
  qed
qed



lemma build_loop_out:
  "mtx_writes (snd (build_loop T is (m, out))) = mtx_writes out \<and>
   reads (snd (build_loop T is (m, out))) = reads out"
proof (induction "is" arbitrary: m out)
  case Nil
  then show ?case by simp
next
  case (Cons i "is")
  have r: "reads (xs @ [Print p]) = reads xs" for xs p
    by (induction xs rule: reads.induct) auto
  show ?case
    by (simp add: Let_def Cons.IH mtx_writes_append r)
qed

lemma build_loop_jumps:
  "fst (build_loop T [0..<shape0 T] (Map.empty, out)) = build_all T"
  by (simp add: build_all_def build_loop_fst)

lemma get_jumps_result:
  "snd (get_jumps w microTFn T) =
     (if path_exists w (microTFn @ ''.jumps'') then pickle_load w (microTFn @ ''.jumps'')
      else if writable w (microTFn @ ''.jumps'') then Inr (build_all T) else Inl IOError)"
  by (simp add: get_jumps_def Let_def build_loop_jumps split: sum.splits)

lemma get_jumps_mtx_writes: "mtx_writes (fst (get_jumps w microTFn T)) = []"
  by (simp add: get_jumps_def Let_def mtx_writes_append build_loop_out split: sum.splits)

lemma main_program_mtx_writes:
  "mtx_writes (fst (main_program draw w microTFn microstatesFn nsamples ntrials outName g)) =
     (if path_exists w microTFn then
        (case mmread w microTFn of
           Inl e \<Rightarrow> []
         | Inr T \<Rightarrow>
             (case MicrostateInfo w microstatesFn of
                Inl e \<Rightarrow> []
              | Inr mInfo \<Rightarrow>
                  (case snd (get_jumps w microTFn T) of
                     Inl e \<Rightarrow> []
                   | Inr jumps \<Rightarrow>
                       mtx_writes (fst (trials_loop draw w jumps (shape0 T) nsamples outName
                         [0..<nat ntrials] (lil_empty (shape0 T), 0, g))))))
      else [])"
proof -
  have g: "mtx_writes out1 = []" if "get_jumps w microTFn T = (out1, r)" for T out1 r
    using get_jumps_mtx_writes [of w microTFn T] that by simp
  show ?thesis
    unfolding main_program_def
    by (auto simp: Let_def mtx_writes_append split: sum.splits prod.splits dest: g)
qed

lemma main_program_result:
  "snd (main_program draw w microTFn microstatesFn nsamples ntrials outName g) =
     (if path_exists w microTFn then
        (case mmread w microTFn of
           Inl e \<Rightarrow> Inl e
         | Inr T \<Rightarrow>
             (case MicrostateInfo w microstatesFn of
                Inl e \<Rightarrow> Inl e
              | Inr mInfo \<Rightarrow>
                  (case snd (get_jumps w microTFn T) of
                     Inl e \<Rightarrow> Inl e
                   | Inr jumps \<Rightarrow>
                       (case snd (trials_loop draw w jumps (shape0 T) nsamples outName
                         [0..<nat ntrials] (lil_empty (shape0 T), 0, g)) of
                          Inl e \<Rightarrow> Inl e | Inr s \<Rightarrow> Inr ()))))
      else Inl (SystemExit 1))"
  unfolding main_program_def
  by (auto simp: Let_def split: sum.splits prod.splits)

subsection \<open>Zero samples, empty tables, too few arguments\<close>

text \<open>
  C7. A request for zero samples draws nothing, so the sequence of outcomes is empty,
  and the loop returns the count matrix and the random source as they were.
\<close>

theorem zero_samples_unchanged:
  "sample draw jt 0 g = Inr ([], g) \<and> sample_loop draw i jt 0 (C, g) = Inr (C, g)"
  by simp

theorem zero_samples_unchanged_witness:
  "sample draw_index ([1], [1]) 0 rng_zero = Inr ([], rng_zero) \<and>
   sample_loop draw_index 0 ([1], [1]) 0 (lil_empty 3, rng_zero) = Inr (lil_empty 3, rng_zero)"
  using zero_samples_unchanged [of draw_index "([1], [1])" rng_zero 0 "lil_empty 3"] .

text \<open>
  C2. With the weighted draw of the spec, a state whose row holds no value other than
  zero gets the empty jump table, and a request for one sample or more from it ends
  with \<open>DegenerateDistributionError\<close>: in the sequence of outcomes, in the loop of the
  state, and in the loop over the states, which does not go on to the next state.
\<close>

theorem empty_row_raises:
  assumes "i < shape0 T" and "\<forall>cv \<in> set (rowsdata T ! i). snd cv = 0" and "0 < count"
  shows "build_all T i = Some ([], []) \<and>
         sample draw_index ([], []) count g = Inl DegenerateDistributionError \<and>
         sample_loop draw_index i ([], []) count (C, g) = Inl DegenerateDistributionError \<and>
         states_loop draw_index (build_all T) (int count) (i # rest) (C, g) =
           Inl DegenerateDistributionError"
proof -
  from assms(2) have "filter (\<lambda>cv. snd cv \<noteq> 0) (rowsdata T ! i) = []"
    by (simp add: filter_empty_conv)
  then have "build_jump T i = ([], [])"
    by (simp add: build_jump_def row_nonzero_def)
  with assms(1) have b: "build_all T i = Some ([], [])"
    by (simp add: build_all_apply)
  obtain n where n: "count = Suc n"
    using assms(3) by (cases count) auto
  have d: "draw_j draw_index ([], []) g = Inl DegenerateDistributionError"
    by (simp add: draw_j_def draw_index_def)
  from d have s: "sample draw_index ([], []) count g = Inl DegenerateDistributionError"
    by (simp add: n)
  from d have l: "sample_loop draw_index i ([], []) count (C, g) = Inl DegenerateDistributionError"
    by (simp add: n)
  from b l have "states_loop draw_index (build_all T) (int count) (i # rest) (C, g) =
      Inl DegenerateDistributionError"
    by simp
  with b s l show ?thesis by simp
qed

theorem empty_row_raises_witness:
  "0 < shape0 T_zero_row \<and> (0::nat) < 3 \<and>
   build_all T_zero_row 0 = Some ([], []) \<and>
   sample_loop draw_index 0 ([], []) 3 (lil_empty 2, rng_zero) = Inl DegenerateDistributionError \<and>
   states_loop draw_index (build_all T_zero_row) 3 [0, 1] (lil_empty 2, rng_zero) =
     Inl DegenerateDistributionError"
proof -
  have 1: "0 < shape0 T_zero_row"
    by (simp add: T_zero_row_def shape0_def)
  have 2: "\<forall>cv \<in> set (rowsdata T_zero_row ! 0). snd cv = 0"
    by (simp add: T_zero_row_def)
  have 3: "(0::nat) < 3" by simp
  from empty_row_raises [OF 1 2 3, of rng_zero "lil_empty 2" "[1]"] 1 show ?thesis
    by simp
qed

text \<open>
  C8. With fewer than five arguments after the script's name the run prints the usage
  text and exits with code 1; it has opened no file for reading.
\<close>

theorem too_few_arguments:
  assumes "length argv < 6"
  shows "sample_uniform draw w argv g = ([Print PUsage], Inl (SystemExit 1)) \<and>
         reads (fst (sample_uniform draw w argv g)) = []"
  using assms by (simp add: sample_uniform_def)

theorem too_few_arguments_witness:
  "length [''sample_uniform.py'', ''T.mtx'', ''micro.dat'', ''100'', ''1''] < 6 \<and>
   sample_uniform draw_index (world_fresh T_chain)
       [''sample_uniform.py'', ''T.mtx'', ''micro.dat'', ''100'', ''1''] rng_zero =
     ([Print PUsage], Inl (SystemExit 1))"
proof -
  have l: "length [''sample_uniform.py'', ''T.mtx'', ''micro.dat'', ''100'', ''1''] < 6"
    by simp
  from too_few_arguments [OF l, of draw_index "world_fresh T_chain" rng_zero] l
  show ?thesis by simp
qed

subsection \<open>The three-state cycle\<close>

lemma py_int_examples:
  "py_int ''100'' = Inr 100" "py_int ''1'' = Inr 1" "py_int ''2'' = Inr 2"
  by (simp_all add: py_int_def strip_def is_space_def digit_value_def)

lemma row_get_outside:
  "j \<notin> fst ` set r \<Longrightarrow> row_get r j = 0"
  by (simp add: row_get_def map_of_eq_None_iff [THEN iffD2])

lemma build_jump_dense:
  assumes "lil_wf T" and "i < shape0 T"
  shows "build_jump T i =
           (filter (\<lambda>j. lil_get T i j \<noteq> 0) [0..<ncols T],
            map (lil_get T i) (filter (\<lambda>j. lil_get T i j \<noteq> 0) [0..<ncols T]))"
proof -
  let ?r = "rowsdata T ! i"
  from lil_wf_row [OF assms] have s: "sorted_wrt (<) (map fst ?r)" and d: "distinct (map fst ?r)"
    by simp_all
  have get: "lil_get T i = row_get ?r"
    by (simp add: lil_get_def fun_eq_iff)
  from assms have b: "\<forall>c \<in> fst ` set ?r. c < ncols T"
    by (auto simp: lil_wf_def shape0_def list_all_iff dest!: nth_mem)
  have "set (row_nonzero ?r) = set (filter (\<lambda>j. row_get ?r j \<noteq> 0) [0..<ncols T])"
  proof -
    have "row_get ?r j \<noteq> 0 \<Longrightarrow> j < ncols T" for j
      using b row_get_outside [of j ?r] by blast
    then show ?thesis
      by (auto simp: set_row_nonzero [OF d])
  qed
  moreover have "sorted_wrt (<) (filter (\<lambda>j. row_get ?r j \<noteq> 0) [0..<ncols T])"
    by (simp add: sorted_wrt_filter)
  ultimately have "row_nonzero ?r = filter (\<lambda>j. row_get ?r j \<noteq> 0) [0..<ncols T]"
    using sorted_row_nonzero [OF s]
    by (intro sorted_distinct_set_unique) (simp_all add: strict_sorted_iff)
  then show ?thesis
    by (simp add: build_jump_def Let_def get)
qed

lemma todense_chain:
  assumes "todense T = [[0, 1, 0], [0, 0, 1], [1, 0, 0]]" and "ncols T = 3"
  shows "shape0 T = 3"
    and "map (lil_get T 0) [0..<3] = [0, 1, 0]"
    and "map (lil_get T 1) [0..<3] = [0, 0, 1]"
    and "map (lil_get T 2) [0..<3] = [1, 0, 0]"
proof -
  from assms(1) have "length (todense T) = 3" by simp
  then show sh: "shape0 T = 3" by (simp add: todense_def)
  have u: "[0..<3] = [0, 1, 2]"
    by (simp add: upt_rec)
  from assms show "map (lil_get T 0) [0..<3] = [0, 1, 0]"
    and "map (lil_get T 1) [0..<3] = [0, 0, 1]"
    and "map (lil_get T 2) [0..<3] = [1, 0, 0]"
    unfolding todense_def sh by (simp_all add: u)
qed

lemma build_all_chain:
  assumes "lil_wf T" and "ncols T = 3" and "todense T = [[0, 1, 0], [0, 0, 1], [1, 0, 0]]"
  shows "build_all T 0 = Some ([1], [1])"
    and "build_all T 1 = Some ([2], [1])"
    and "build_all T 2 = Some ([0], [1])"
proof -
  note d = todense_chain [OF assms(3) assms(2)]
  have u: "[0..<3] = [0, 1, 2]"
    by (simp add: upt_rec)
  from d(2) have r0: "lil_get T 0 0 = 0" "lil_get T 0 (Suc 0) = 1" "lil_get T 0 2 = 0"
    by (simp_all add: u)
  from d(3) have r1: "lil_get T (Suc 0) 0 = 0" "lil_get T (Suc 0) (Suc 0) = 0" "lil_get T (Suc 0) 2 = 1"
    by (simp_all add: u)
  from d(4) have r2: "lil_get T 2 0 = 1" "lil_get T 2 (Suc 0) = 0" "lil_get T 2 2 = 0"
    by (simp_all add: u)
  show "build_all T 0 = Some ([1], [1])"
    using build_jump_dense [OF assms(1), of 0] by (simp add: build_all_apply d(1) assms(2) u r0)
  show "build_all T 1 = Some ([2], [1])"
    using build_jump_dense [OF assms(1), of 1] by (simp add: build_all_apply d(1) assms(2) u r1)
  show "build_all T 2 = Some ([0], [1])"
    using build_jump_dense [OF assms(1), of 2] by (simp add: build_all_apply d(1) assms(2) u r2)
qed

lemma sample_loop_single:
  assumes draw: "\<forall>g. \<exists>k g'. draw ws g = Inr (k, g') \<and> k < length ws" and ws: "length ws = 1"
  shows "i < shape0 C \<Longrightarrow> j < ncols C \<Longrightarrow>
     \<exists>g'. sample_loop draw i ([j], ws) n (C, g) =
       Inr (C\<lparr>rowsdata := (rowsdata C)[i := ((\<lambda>r. row_inc r j) ^^ n) (rowsdata C ! i)]\<rparr>, g')"
proof (induction n arbitrary: C g)
  case 0
  then show ?case by simp
next
  case (Suc n)
  from draw ws obtain g1 where d: "draw ws g = Inr (0, g1)"
    by (metis less_one)
  then have dj: "draw_j draw ([j], ws) g = Inr (j, g1)"
    by (simp add: draw_j_def)
  let ?C1 = "C\<lparr>rowsdata := (rowsdata C)[i := row_inc (rowsdata C ! i) j]\<rparr>"
  from Suc.prems have l: "lil_inc C i j = Inr ?C1"
    by (simp add: lil_inc_def)
  from Suc.prems have "i < shape0 ?C1" "j < ncols ?C1"
    by (simp_all add: shape0_def)
  from Suc.IH [OF this, of g1] obtain g' where
    "sample_loop draw i ([j], ws) n (?C1, g1) =
       Inr (?C1\<lparr>rowsdata := (rowsdata ?C1)[i := ((\<lambda>r. row_inc r j) ^^ n) (rowsdata ?C1 ! i)]\<rparr>, g')"
    by blast
  moreover from Suc.prems(1) have
    "?C1\<lparr>rowsdata := (rowsdata ?C1)[i := ((\<lambda>r. row_inc r j) ^^ n) (rowsdata ?C1 ! i)]\<rparr> =
     C\<lparr>rowsdata := (rowsdata C)[i := ((\<lambda>r. row_inc r j) ^^ Suc n) (rowsdata C ! i)]\<rparr>"
    using funpow_swap1 [of "\<lambda>r. row_inc r j" n "rowsdata C ! i"]
    by (simp add: shape0_def)
  ultimately show ?case
    using dj l by simp
qed

lemma row_inc_funpow:
  "((\<lambda>r. row_inc r j) ^^ n) (if m = 0 then [] else [(j, m)]) =
     (if m + n = 0 then [] else [(j, m + n)])"
proof (induction n)
  case 0
  then show ?case by simp
next
  case (Suc n)
  then show ?case by simp
qed

lemma chain_counts_rows:
  "chain_counts m =
     \<lparr>ncols = 3, rowsdata = [if m = 0 then [] else [(1, m)], if m = 0 then [] else [(2, m)],
                             if m = 0 then [] else [(0, m)]]\<rparr>"
  by (simp add: chain_counts_def lil_empty_def numeral_3_eq_3)

lemma states_loop_chain:
  assumes draw: "\<forall>g. \<exists>k g'. draw [1] g = Inr (k, g') \<and> k < length [1::real]"
    and jumps: "jumps 0 = Some ([1], [1])" "jumps 1 = Some ([2], [1])" "jumps 2 = Some ([0], [1])"
  shows "\<exists>g'. states_loop draw jumps (int n) [0..<3] (chain_counts m, g) =
            Inr (chain_counts (m + n), g')"
proof -
  have u: "[0..<3] = [0, 1, 2]"
    by (simp add: upt_rec)
  let ?row = "\<lambda>j k. if k = 0 then [] else [(j::nat, k::nat)]"
  let ?C0 = "\<lparr>ncols = 3, rowsdata = [?row 1 m, ?row 2 m, ?row 0 m]\<rparr>"
  let ?C1 = "\<lparr>ncols = 3, rowsdata = [?row 1 (m + n), ?row 2 m, ?row 0 m]\<rparr>"
  let ?C2 = "\<lparr>ncols = 3, rowsdata = [?row 1 (m + n), ?row 2 (m + n), ?row 0 m]\<rparr>"
  let ?C3 = "\<lparr>ncols = 3, rowsdata = [?row 1 (m + n), ?row 2 (m + n), ?row 0 (m + n)]\<rparr>"
  note single = sample_loop_single [where ws = "[1]" and draw = draw, OF draw, simplified]
  from single [of 0 ?C0 1 n g] obtain g1 where
    s0: "sample_loop draw 0 ([1], [1]) n (?C0, g) = Inr (?C1, g1)"
    using row_inc_funpow [where j = 1 and n = n and m = m] by (auto simp: shape0_def)
  from single [of 1 ?C1 2 n g1] obtain g2 where
    s1: "sample_loop draw 1 ([2], [1]) n (?C1, g1) = Inr (?C2, g2)"
    using row_inc_funpow [where j = 2 and n = n and m = m] by (auto simp: shape0_def)
  from single [of 2 ?C2 0 n g2] obtain g3 where
    s2: "sample_loop draw 2 ([0], [1]) n (?C2, g2) = Inr (?C3, g3)"
    using row_inc_funpow [where j = 0 and n = n and m = m] by (auto simp: shape0_def)
  have "states_loop draw jumps (int n) [0, 1, 2] (?C0, g) = Inr (?C3, g3)"
    using jumps s0 s1 s2 by simp
  then show ?thesis
    unfolding u chain_counts_rows by blast
qed

lemma trials_loop_chain:
  assumes draw: "\<forall>g. \<exists>k g'. draw [1] g = Inr (k, g') \<and> k < length [1::real]"
    and jumps: "jumps 0 = Some ([1], [1])" "jumps 1 = Some ([2], [1])" "jumps 2 = Some ([0], [1])"
  shows "\<forall>t \<in> set ts. writable w (mtx_name outName (int n) t) \<Longrightarrow>
     (\<exists>s'. snd (trials_loop draw w jumps 3 (int n) outName ts (chain_counts m, tot, g)) = Inr s') \<and>
     mtx_writes (fst (trials_loop draw w jumps 3 (int n) outName ts (chain_counts m, tot, g))) =
       chain_writes outName n m ts"
proof (induction ts arbitrary: m tot g)
  case Nil
  then show ?case by simp
next
  case (Cons t ts)
  from states_loop_chain [where draw = draw, OF draw jumps, of n m g] obtain g1 where
    s: "states_loop draw jumps (int n) [0..<3] (chain_counts m, g) = Inr (chain_counts (m + n), g1)"
    by blast
  from Cons.prems have wt: "writable w (mtx_name outName (int n) t)"
    and wts: "\<forall>t \<in> set ts. writable w (mtx_name outName (int n) t)"
    by simp_all
  let ?tot = "tot + int 3 * int n"
  have tb: "trial_body draw w jumps 3 (int n) outName t (chain_counts m, tot, g) =
      ([Print (PSampled (int t * int n) ?tot), WriteMtx (mtx_name outName (int n) t) (chain_counts (m + n))],
       Inr (chain_counts (m + n), ?tot, g1))"
    using s wt by (simp add: trial_body_def Let_def)
  from Cons.IH [OF wts, of "m + n" ?tot g1] show ?case
    by (auto simp: tb split: prod.splits)
qed

lemma main_program_chain:
  assumes draw: "\<forall>g. \<exists>k g'. draw [1] g = Inr (k, g') \<and> k < length [1::real]"
    and T: "lil_wf T" "ncols T = 3" "todense T = [[0, 1, 0], [0, 0, 1], [1, 0, 0]]"
    and w: "path_exists w microTFn" "mmread w microTFn = Inr T"
      "MicrostateInfo w microstatesFn = Inr mInfo"
      "\<not> path_exists w (microTFn @ ''.jumps'')" "writable w (microTFn @ ''.jumps'')"
      "\<forall>t < nat ntrials. writable w (mtx_name outName (int n) t)"
  shows "snd (main_program draw w microTFn microstatesFn (int n) ntrials outName g) = Inr () \<and>
         mtx_writes (fst (main_program draw w microTFn microstatesFn (int n) ntrials outName g)) =
           chain_writes outName n 0 [0..<nat ntrials]"
proof -
  note jumps = build_all_chain [OF T]
  have sh: "shape0 T = 3"
    by (rule todense_chain(1) [OF T(3) T(2)])
  have e: "lil_empty 3 = chain_counts 0"
    by (simp add: chain_counts_def)
  from w(6) have "\<forall>t \<in> set [0..<nat ntrials]. writable w (mtx_name outName (int n) t)"
    by simp
  from trials_loop_chain [where draw = draw, OF draw jumps this, of 0 0 g]
  show ?thesis
    by (auto simp: main_program_result main_program_mtx_writes get_jumps_result w sh e)
qed

lemma first_exceeding_bound:
  "acc \<le> u \<Longrightarrow> u < acc + sum_list ws \<Longrightarrow> first_exceeding ws acc u < length ws"
  by (induction ws arbitrary: acc) (auto simp: add.assoc)

lemma draw_index_in_bounds:
  assumes "0 < sum_list ws"
  shows "\<exists>k g'. draw_index ws g = Inr (k, g') \<and> k < length ws"
proof -
  have "real (g 0 mod 2 ^ 53) < 2 ^ 53"
    by (metis mod_less_divisor of_nat_less_iff of_nat_numeral of_nat_power zero_less_numeral zero_less_power)
  then have "real (g 0 mod 2 ^ 53) / 2 ^ 53 < 1"
    by simp
  with assms have "sum_list ws * (real (g 0 mod 2 ^ 53) / 2 ^ 53) < sum_list ws"
    by (simp add: mult_less_cancel_left2)
  moreover from assms have "0 \<le> sum_list ws * (real (g 0 mod 2 ^ 53) / 2 ^ 53)"
    by simp
  ultimately have "first_exceeding ws 0 (sum_list ws * (real (g 0 mod 2 ^ 53) / 2 ^ 53)) < length ws"
    by (intro first_exceeding_bound) simp_all
  moreover from assms have "ws \<noteq> []" by auto
  ultimately show ?thesis
    using assms by (simp add: draw_index_def Let_def)
qed

lemma draw_index_single:
  "\<forall>g. \<exists>k g'. draw_index [1] g = Inr (k, g') \<and> k < length [1::real]"
  using draw_index_in_bounds [of "[1]"] by simp

lemma T_chain_facts:
  "lil_wf T_chain" "ncols T_chain = 3" "todense T_chain = [[0, 1, 0], [0, 0, 1], [1, 0, 0]]"
  by (simp_all add: T_chain_def lil_wf_def todense_def shape0_def lil_get_def row_get_def upt_rec)

lemma str_int_examples:
  "str_int 100 = ''100''" "str_int 0 = ''0''" "str_int 1 = ''1''" "str_int 2 = ''2''"
  by (simp_all add: str_int_def str_nat.simps digit_char_def)

text \<open>
  C4. For any LIL form of the matrix \<open>[[0,1,0],[0,0,1],[1,0,0]]\<close>, with no cache file,
  the arguments \<open>100\<close> and \<open>1\<close>, and a draw that returns an index within the bounds of
  the weights, the run succeeds and writes one count matrix, whose stored entries are
  \<open>(0,1) = 100\<close>, \<open>(1,2) = 100\<close> and \<open>(2,0) = 100\<close> and no other.
\<close>

theorem deterministic_chain_counts:
  assumes "\<forall>g. \<exists>k g'. draw [1] g = Inr (k, g') \<and> k < length [1::real]"
    and "lil_wf T" and "ncols T = 3" and "todense T = [[0, 1, 0], [0, 0, 1], [1, 0, 0]]"
    and "path_exists w microTFn" and "mmread w microTFn = Inr T"
    and "MicrostateInfo w microstatesFn = Inr mInfo"
    and "\<not> path_exists w (microTFn @ ''.jumps'')" and "writable w (microTFn @ ''.jumps'')"
    and "writable w (''tCounts.uniform.'' @ outName @ ''.100.0.mtx'')"
  shows "snd (sample_uniform draw w [prog, microTFn, microstatesFn, ''100'', ''1'', outName] g) = Inr () \<and>
         mtx_writes (fst (sample_uniform draw w [prog, microTFn, microstatesFn, ''100'', ''1'', outName] g)) =
           [(''tCounts.uniform.'' @ outName @ ''.100.0.mtx'',
             \<lparr>ncols = 3, rowsdata = [[(1, 100)], [(2, 100)], [(0, 100)]]\<rparr>)]"
proof -
  have name: "mtx_name outName (int 100) 0 = ''tCounts.uniform.'' @ outName @ ''.100.0.mtx''"
    by (simp add: mtx_name_def str_int_examples)
  with assms(10) have "\<forall>t < nat 1. writable w (mtx_name outName (int 100) t)"
    by simp
  from main_program_chain [where draw = draw, OF assms(1-9) this, of g]
  have "snd (main_program draw w microTFn microstatesFn 100 1 outName g) = Inr ()"
    and "mtx_writes (fst (main_program draw w microTFn microstatesFn 100 1 outName g)) =
           [(''tCounts.uniform.'' @ outName @ ''.100.0.mtx'', chain_counts 100)]"
    using name by simp_all
  then show ?thesis
    by (simp add: sample_uniform_def py_int_examples chain_counts_def)
qed

theorem deterministic_chain_counts_witness:
  "snd (sample_uniform draw_index (world_fresh T_chain) argv_example rng_zero) = Inr () \<and>
   mtx_writes (fst (sample_uniform draw_index (world_fresh T_chain) argv_example rng_zero)) =
     [(''tCounts.uniform.out.100.0.mtx'',
       \<lparr>ncols = 3, rowsdata = [[(1, 100)], [(2, 100)], [(0, 100)]]\<rparr>)]"
proof -
  have w: "path_exists (world_fresh T_chain) ''T.mtx''"
    "mmread (world_fresh T_chain) ''T.mtx'' = Inr T_chain"
    "MicrostateInfo (world_fresh T_chain) ''micro.dat'' = Inr ''mInfo''"
    "\<not> path_exists (world_fresh T_chain) (''T.mtx'' @ ''.jumps'')"
    "writable (world_fresh T_chain) (''T.mtx'' @ ''.jumps'')"
    "writable (world_fresh T_chain) (''tCounts.uniform.'' @ ''out'' @ ''.100.0.mtx'')"
    by (simp_all add: world_fresh_def)
  from deterministic_chain_counts [where draw = draw_index, OF draw_index_single T_chain_facts w,
      of "''sample_uniform.py''" rng_zero]
  show ?thesis
    by (simp add: argv_example_def)
qed

subsection \<open>Output files and accumulated counts\<close>

lemma digit_value_digit_char: "d < 10 \<Longrightarrow> digit_value (digit_char d) = Some d"
proof -
  assume "d < 10"
  then consider "d = 0" | "d = 1" | "d = 2" | "d = 3" | "d = 4" | "d = 5" | "d = 6" | "d = 7"
    | "d = 8" | "d = 9"
    by atomize_elim presburger
  then show ?thesis
    by cases (simp_all add: digit_char_def digit_value_def)
qed

lemma digits_value_snoc:
  "digits_value acc (cs @ [c]) =
     (case digits_value acc cs of
        None \<Rightarrow> None
      | Some v \<Rightarrow> (case digit_value c of None \<Rightarrow> None | Some d \<Rightarrow> Some (10 * v + d)))"
  by (induction cs arbitrary: acc) (auto split: option.splits)

lemma digits_value_str_nat: "digits_value 0 (str_nat n) = Some n"
proof (induction n rule: str_nat.induct)
  case (1 n)
  show ?case
  proof (cases "n < 10")
    case True
    then show ?thesis
      by (subst str_nat.simps) (simp add: digit_value_digit_char)
  next
    case False
    with 1 have "digits_value 0 (str_nat (n div 10)) = Some (n div 10)"
      by simp
    with False show ?thesis
      by (subst str_nat.simps) (simp add: digits_value_snoc digit_value_digit_char)
  qed
qed

lemma str_nat_inj: "str_nat m = str_nat n \<Longrightarrow> m = n"
  by (metis digits_value_str_nat option.inject)

lemma mtx_name_inj: "mtx_name outName ns t = mtx_name outName ns t' \<Longrightarrow> t = t'"
  by (simp add: mtx_name_def str_int_def str_nat_inj)

lemma mtx_names_distinct: "distinct (map (mtx_name outName ns) [0..<k])"
  by (auto simp: distinct_map intro!: inj_onI dest: mtx_name_inj)

lemma sample_uniform_cases:
  assumes "sample_uniform draw w argv g = (out, r)"
  obtains (few) "length argv < 6" "mtx_writes out = []" "r = Inl (SystemExit 1)"
  | (bad) e where "mtx_writes out = []" "r = Inl e"
      "py_int (argv ! 3) = Inl e \<or> py_int (argv ! 4) = Inl e"
  | (main) nsamples ntrials where "py_int (argv ! 3) = Inr nsamples"
      "py_int (argv ! 4) = Inr ntrials"
      "main_program draw w (argv ! 1) (argv ! 2) nsamples ntrials (argv ! 5) g = (out, r)"
  using assms by (auto simp: sample_uniform_def split: if_splits sum.splits)

lemma main_program_trials:
  assumes "main_program draw w microTFn microstatesFn nsamples ntrials outName g = (out, r)"
    and "mtx_writes out \<noteq> [] \<or> r = Inr u"
  shows "\<exists>T jumps. path_exists w microTFn \<and> mmread w microTFn = Inr T \<and>
    snd (get_jumps w microTFn T) = Inr jumps \<and>
    mtx_writes (fst (trials_loop draw w jumps (shape0 T) nsamples outName
       [0..<nat ntrials] (lil_empty (shape0 T), 0, g))) = mtx_writes out \<and>
    (r = Inr u \<longrightarrow> (\<exists>s. snd (trials_loop draw w jumps (shape0 T) nsamples outName
       [0..<nat ntrials] (lil_empty (shape0 T), 0, g)) = Inr s))"
proof -
  from assms(1) have o: "mtx_writes out =
      mtx_writes (fst (main_program draw w microTFn microstatesFn nsamples ntrials outName g))"
    and r: "r = snd (main_program draw w microTFn microstatesFn nsamples ntrials outName g)"
    by simp_all
  from assms(2) o r show ?thesis
    unfolding main_program_mtx_writes main_program_result
    by (auto split: if_splits sum.splits)
qed

text \<open>
  C6. A run that ends without an error has written one count matrix per trial, as many
  as the number of trials given (none for a negative number), under distinct names
  \<open>tCounts.uniform.<outName>.<nsamples>.<trial>.mtx\<close> with the trial index counting
  from 0 in steps of one.
\<close>

theorem output_files_per_trial:
  assumes "sample_uniform draw w argv g = (out, Inr u)"
  shows "\<exists>nsamples ntrials.
           py_int (argv ! 3) = Inr nsamples \<and> py_int (argv ! 4) = Inr ntrials \<and>
           map fst (mtx_writes out) =
             map (\<lambda>trial. ''tCounts.uniform.'' @ argv ! 5 @ ''.'' @ str_int nsamples @ ''.'' @
                            str_int (int trial) @ ''.mtx'') [0..<nat ntrials] \<and>
           length (mtx_writes out) = nat ntrials \<and>
           distinct (map fst (mtx_writes out))"
  using assms
proof (cases rule: sample_uniform_cases)
  case few
  then show ?thesis by simp
next
  case (bad e)
  then show ?thesis by simp
next
  case (main nsamples ntrials)
  have "mtx_writes out \<noteq> [] \<or> (Inr u :: error + unit) = Inr u"
    by simp
  from main_program_trials [OF main(3) this] obtain T :: "real lil_matrix" and jumps where
    o: "mtx_writes (fst (trials_loop draw w jumps (shape0 T) nsamples (argv ! 5)
          [0..<nat ntrials] (lil_empty (shape0 T), 0, g))) = mtx_writes out"
    and "(Inr u :: error + unit) = Inr u \<longrightarrow> (\<exists>s. snd (trials_loop draw w jumps (shape0 T) nsamples (argv ! 5)
          [0..<nat ntrials] (lil_empty (shape0 T), 0, g)) = Inr s)"
    by blast
  then obtain s where
    r2: "snd (trials_loop draw w jumps (shape0 T) nsamples (argv ! 5)
          [0..<nat ntrials] (lil_empty (shape0 T), 0, g)) = Inr s"
    by blast
  have "trials_loop draw w jumps (shape0 T) nsamples (argv ! 5)
          [0..<nat ntrials] (lil_empty (shape0 T), 0, g) =
        (fst (trials_loop draw w jumps (shape0 T) nsamples (argv ! 5)
          [0..<nat ntrials] (lil_empty (shape0 T), 0, g)), Inr s)"
    by (simp add: r2 [symmetric])
  from trials_loop_names [OF this]
  have n: "map fst (mtx_writes out) = map (mtx_name (argv ! 5) nsamples) [0..<nat ntrials]"
    unfolding o .
  then have "length (map fst (mtx_writes out)) = nat ntrials"
    by simp
  then have l: "length (mtx_writes out) = nat ntrials"
    by simp
  have d: "distinct (map fst (mtx_writes out))"
    unfolding n by (rule mtx_names_distinct)
  have "mtx_name (argv ! 5) nsamples =
      (\<lambda>trial. ''tCounts.uniform.'' @ argv ! 5 @ ''.'' @ str_int nsamples @ ''.'' @
                 str_int (int trial) @ ''.mtx'')"
    by (simp add: mtx_name_def fun_eq_iff)
  with n l d main(1,2) show ?thesis
    by simp
qed


lemma example_run_two:
  "snd (sample_uniform draw_index (world_fresh T_chain) argv_two rng_zero) = Inr ()"
  "mtx_writes (fst (sample_uniform draw_index (world_fresh T_chain) argv_two rng_zero)) =
     [(''tCounts.uniform.out.2.0.mtx'', chain_counts 2),
      (''tCounts.uniform.out.2.1.mtx'', chain_counts 4)]"
proof -
  have w: "path_exists (world_fresh T_chain) ''T.mtx''"
    "mmread (world_fresh T_chain) ''T.mtx'' = Inr T_chain"
    "MicrostateInfo (world_fresh T_chain) ''micro.dat'' = Inr ''mInfo''"
    "\<not> path_exists (world_fresh T_chain) (''T.mtx'' @ ''.jumps'')"
    "writable (world_fresh T_chain) (''T.mtx'' @ ''.jumps'')"
    "\<forall>t < nat 2. writable (world_fresh T_chain) (mtx_name ''out'' (int 2) t)"
    by (simp_all add: world_fresh_def)
  have u: "[0..<2] = [0, 1]"
    by (simp add: upt_rec)
  have names: "mtx_name ''out'' 2 0 = ''tCounts.uniform.out.2.0.mtx''"
    "mtx_name ''out'' 2 (Suc 0) = ''tCounts.uniform.out.2.1.mtx''"
    by (simp_all add: mtx_name_def str_int_examples)
  have c: "chain_counts (Suc (Suc 0)) = chain_counts 2"
    "chain_counts (Suc (Suc (Suc (Suc 0)))) = chain_counts 4"
    by (simp_all add: eval_nat_numeral)
  note run = main_program_chain [where draw = draw_index, OF draw_index_single T_chain_facts w,
      of rng_zero]
  from run show "snd (sample_uniform draw_index (world_fresh T_chain) argv_two rng_zero) = Inr ()"
    by (simp add: sample_uniform_def argv_two_def py_int_examples)
  from run show "mtx_writes (fst (sample_uniform draw_index (world_fresh T_chain) argv_two rng_zero)) =
     [(''tCounts.uniform.out.2.0.mtx'', chain_counts 2),
      (''tCounts.uniform.out.2.1.mtx'', chain_counts 4)]"
    by (simp add: sample_uniform_def argv_two_def py_int_examples u names c)
qed

theorem output_files_per_trial_witness:
  "snd (sample_uniform draw_index (world_fresh T_chain) argv_two rng_zero) = Inr () \<and>
   map fst (mtx_writes (fst (sample_uniform draw_index (world_fresh T_chain) argv_two rng_zero))) =
     [''tCounts.uniform.out.2.0.mtx'', ''tCounts.uniform.out.2.1.mtx'']"
proof -
  let ?run = "sample_uniform draw_index (world_fresh T_chain) argv_two rng_zero"
  have run: "?run = (fst ?run, Inr ())"
    by (simp add: example_run_two(1) [symmetric])
  have u: "[0..<2] = [0, 1]"
    by (simp add: upt_rec)
  from output_files_per_trial [OF run] obtain nsamples ntrials where
    "py_int (argv_two ! 3) = Inr nsamples" "py_int (argv_two ! 4) = Inr ntrials"
    and names: "map fst (mtx_writes (fst ?run)) =
       map (\<lambda>trial. ''tCounts.uniform.'' @ argv_two ! 5 @ ''.'' @ str_int nsamples @ ''.'' @
                      str_int (int trial) @ ''.mtx'') [0..<nat ntrials]"
    by blast
  then have "nsamples = 2" "ntrials = 2"
    by (simp_all add: argv_two_def py_int_examples)
  with names have "map fst (mtx_writes (fst ?run)) =
     [''tCounts.uniform.out.2.0.mtx'', ''tCounts.uniform.out.2.1.mtx'']"
    by (simp add: argv_two_def u str_int_examples)
  with example_run_two(1) show ?thesis
    by simp
qed




subsection \<open>The support of the counts\<close>






subsection \<open>The cache\<close>

lemma trials_loop_world:
  "writable w' = writable w \<Longrightarrow>
     trials_loop draw w' jumps N ns outName ts s = trials_loop draw w jumps N ns outName ts s"
proof (induction ts arbitrary: s)
  case Nil
  then show ?case by simp
next
  case (Cons t ts)
  from Cons.prems have "trial_body draw w' jumps N ns outName t s =
      trial_body draw w jumps N ns outName t s"
    by (simp add: trial_body_def cong: sum.case_cong prod.case_cong if_cong)
  with Cons.IH [OF Cons.prems] show ?case
    by simp
qed

text \<open>
  C10. When the cache file exists, replacing the matrix in the matrix file by any other
  with the same number of rows changes neither the count matrices written nor the way
  the run ends, for the same arguments, draw and state of the random source: the tables
  come from the cache file, and the matrix gives only the number of states.
\<close>

theorem cache_hides_matrix_values:
  assumes "path_exists w (argv ! 1 @ ''.jumps'')" and "mmread w (argv ! 1) = Inr T"
    and "shape0 T' = shape0 T"
  shows "mtx_writes (fst (sample_uniform draw (w\<lparr>mmread := (mmread w)(argv ! 1 := Inr T')\<rparr>) argv g)) =
           mtx_writes (fst (sample_uniform draw w argv g)) \<and>
         snd (sample_uniform draw (w\<lparr>mmread := (mmread w)(argv ! 1 := Inr T')\<rparr>) argv g) =
           snd (sample_uniform draw w argv g)"
proof -
  let ?w' = "w\<lparr>mmread := (mmread w)(argv ! 1 := Inr T')\<rparr>"
  have j: "snd (get_jumps ?w' (argv ! 1) T') = snd (get_jumps w (argv ! 1) T)"
    using assms(1) by (simp add: get_jumps_result)
  have t: "trials_loop draw ?w' jumps N ns outName ts s = trials_loop draw w jumps N ns outName ts s"
    for jumps N ns outName ts s
    by (rule trials_loop_world) simp
  have m: "mtx_writes (fst (main_program draw ?w' (argv ! 1) (argv ! 2) ns nt (argv ! 5) g)) =
        mtx_writes (fst (main_program draw w (argv ! 1) (argv ! 2) ns nt (argv ! 5) g))"
    and r: "snd (main_program draw ?w' (argv ! 1) (argv ! 2) ns nt (argv ! 5) g) =
        snd (main_program draw w (argv ! 1) (argv ! 2) ns nt (argv ! 5) g)" for ns nt
    using assms(2,3)
    by (simp_all add: main_program_mtx_writes main_program_result j t del: One_nat_def
        cong: sum.case_cong)
  show ?thesis
    by (simp add: sample_uniform_def m r del: One_nat_def split: sum.splits)
qed

lemma main_program_chain_cached:
  assumes draw: "\<forall>g. \<exists>k g'. draw [1] g = Inr (k, g') \<and> k < length [1::real]"
    and T: "shape0 T = 3"
    and w: "path_exists w microTFn" "mmread w microTFn = Inr T"
      "MicrostateInfo w microstatesFn = Inr mInfo"
      "path_exists w (microTFn @ ''.jumps'')" "pickle_load w (microTFn @ ''.jumps'') = Inr jumps_chain"
      "\<forall>t < nat ntrials. writable w (mtx_name outName (int n) t)"
  shows "snd (main_program draw w microTFn microstatesFn (int n) ntrials outName g) = Inr () \<and>
         mtx_writes (fst (main_program draw w microTFn microstatesFn (int n) ntrials outName g)) =
           chain_writes outName n 0 [0..<nat ntrials]"
proof -
  have jumps: "jumps_chain 0 = Some ([1], [1])" "jumps_chain 1 = Some ([2], [1])"
    "jumps_chain 2 = Some ([0], [1])"
    by (simp_all add: jumps_chain_def)
  have e: "lil_empty 3 = chain_counts 0"
    by (simp add: chain_counts_def)
  from w(6) have "\<forall>t \<in> set [0..<nat ntrials]. writable w (mtx_name outName (int n) t)"
    by simp
  from trials_loop_chain [where draw = draw, OF draw jumps this, of 0 0 g]
  show ?thesis
    by (auto simp: main_program_result main_program_mtx_writes get_jumps_result w T e)
qed

theorem cache_hides_matrix_values_witness:
  "path_exists (world_cached T_identity) (argv_two ! 1 @ ''.jumps'') \<and>
   mmread (world_cached T_identity) (argv_two ! 1) = Inr T_identity \<and>
   shape0 T_chain = shape0 T_identity \<and>
   mtx_writes (fst (sample_uniform draw_index (world_cached T_chain) argv_two rng_zero)) =
     mtx_writes (fst (sample_uniform draw_index (world_cached T_identity) argv_two rng_zero)) \<and>
   mtx_writes (fst (sample_uniform draw_index (world_cached T_identity) argv_two rng_zero)) =
     [(''tCounts.uniform.out.2.0.mtx'', chain_counts 2),
      (''tCounts.uniform.out.2.1.mtx'', chain_counts 4)]"
proof -
  have 1: "path_exists (world_cached T_identity) (argv_two ! 1 @ ''.jumps'')"
    by (simp add: world_cached_def argv_two_def)
  have 2: "mmread (world_cached T_identity) (argv_two ! 1) = Inr T_identity"
    by (simp add: world_cached_def argv_two_def)
  have 3: "shape0 T_chain = shape0 T_identity"
    by (simp add: T_chain_def T_identity_def shape0_def)
  have w': "(world_cached T_identity)\<lparr>mmread :=
      (mmread (world_cached T_identity))(argv_two ! 1 := Inr T_chain)\<rparr> = world_cached T_chain"
    by (simp add: world_cached_def argv_two_def fun_eq_iff)
  have w: "path_exists (world_cached T_identity) ''T.mtx''"
    "mmread (world_cached T_identity) ''T.mtx'' = Inr T_identity"
    "MicrostateInfo (world_cached T_identity) ''micro.dat'' = Inr ''mInfo''"
    "path_exists (world_cached T_identity) (''T.mtx'' @ ''.jumps'')"
    "pickle_load (world_cached T_identity) (''T.mtx'' @ ''.jumps'') = Inr jumps_chain"
    "\<forall>t < nat 2. writable (world_cached T_identity) (mtx_name ''out'' (int 2) t)"
    by (simp_all add: world_cached_def)
  have sh: "shape0 T_identity = 3"
    by (simp add: T_identity_def shape0_def)
  have u: "[0..<2] = [0, 1]"
    by (simp add: upt_rec)
  have names: "mtx_name ''out'' 2 0 = ''tCounts.uniform.out.2.0.mtx''"
    "mtx_name ''out'' 2 (Suc 0) = ''tCounts.uniform.out.2.1.mtx''"
    by (simp_all add: mtx_name_def str_int_examples)
  have c: "chain_counts (Suc (Suc 0)) = chain_counts 2"
    "chain_counts (Suc (Suc (Suc (Suc 0)))) = chain_counts 4"
    by (simp_all add: eval_nat_numeral)
  from main_program_chain_cached [where draw = draw_index, OF draw_index_single sh w, of rng_zero]
  have run: "mtx_writes (fst (sample_uniform draw_index (world_cached T_identity) argv_two rng_zero)) =
     [(''tCounts.uniform.out.2.0.mtx'', chain_counts 2),
      (''tCounts.uniform.out.2.1.mtx'', chain_counts 4)]"
    by (simp add: sample_uniform_def argv_two_def py_int_examples u names c)
  from cache_hides_matrix_values [OF 1 2 3, of draw_index rng_zero] 1 2 3 run show ?thesis
    unfolding w' by simp
qed

subsection \<open>A cache that cannot be saved\<close>

lemma last_get_jumps_unsaved:
  assumes "\<not> path_exists w (microTFn @ ''.jumps'')" and "\<not> writable w (microTFn @ ''.jumps'')"
  shows "fst (get_jumps w microTFn T) \<noteq> [] \<and>
    last (fst (get_jumps w microTFn T)) = Print (PPickling (microTFn @ ''.jumps''))"
  using assms by (simp add: get_jumps_def Let_def)

text \<open>
  C3, as the code has it. Nothing catches a failure to save the cache: when there is
  no cache file and it cannot be written, the run ends with the I/O error right after
  announcing the save, and writes no count matrix.
\<close>

theorem cache_save_failure_aborts:
  assumes "6 \<le> length argv" and "py_int (argv ! 3) = Inr nsamples"
    and "py_int (argv ! 4) = Inr ntrials"
    and "path_exists w (argv ! 1)" and "mmread w (argv ! 1) = Inr T"
    and "MicrostateInfo w (argv ! 2) = Inr mInfo"
    and "\<not> path_exists w (argv ! 1 @ ''.jumps'')" and "\<not> writable w (argv ! 1 @ ''.jumps'')"
  shows "snd (sample_uniform draw w argv g) = Inl IOError \<and>
         mtx_writes (fst (sample_uniform draw w argv g)) = [] \<and>
         last (fst (sample_uniform draw w argv g)) = Print (PPickling (argv ! 1 @ ''.jumps''))"
proof -
  have s: "sample_uniform draw w argv g =
      main_program draw w (argv ! 1) (argv ! 2) nsamples ntrials (argv ! 5) g"
    using assms(1-3) by (simp add: sample_uniform_def)
  have j: "snd (get_jumps w (argv ! 1) T) = Inl IOError"
    using assms(7,8) by (simp add: get_jumps_result)
  then obtain out1 where g: "get_jumps w (argv ! 1) T = (out1, Inl IOError)"
    by (cases "get_jumps w (argv ! 1) T") simp
  from last_get_jumps_unsaved [OF assms(7,8), of T] g
  have l: "out1 \<noteq> []" "last out1 = Print (PPickling (argv ! 1 @ ''.jumps''))"
    by simp_all
  from l have "last (fst (main_program draw w (argv ! 1) (argv ! 2) nsamples ntrials (argv ! 5) g)) =
      Print (PPickling (argv ! 1 @ ''.jumps''))"
    using assms(4-6) g by (simp add: main_program_def)
  then show ?thesis
    unfolding s using assms(4-6) j
    by (simp add: main_program_result main_program_mtx_writes)
qed

theorem cache_save_failure_aborts_witness:
  "6 \<le> length argv_example \<and>
   \<not> writable (world_readonly_cache T_chain) (argv_example ! 1 @ ''.jumps'') \<and>
   snd (sample_uniform draw_index (world_readonly_cache T_chain) argv_example rng_zero) =
     Inl IOError \<and>
   mtx_writes (fst (sample_uniform draw_index (world_readonly_cache T_chain) argv_example
     rng_zero)) = []"
proof -
  have a: "6 \<le> length argv_example" "py_int (argv_example ! 3) = Inr 100"
    "py_int (argv_example ! 4) = Inr 1"
    by (simp_all add: argv_example_def py_int_examples)
  have w: "path_exists (world_readonly_cache T_chain) (argv_example ! 1)"
    "mmread (world_readonly_cache T_chain) (argv_example ! 1) = Inr T_chain"
    "MicrostateInfo (world_readonly_cache T_chain) (argv_example ! 2) = Inr ''mInfo''"
    "\<not> path_exists (world_readonly_cache T_chain) (argv_example ! 1 @ ''.jumps'')"
    "\<not> writable (world_readonly_cache T_chain) (argv_example ! 1 @ ''.jumps'')"
    by (simp_all add: world_readonly_cache_def world_fresh_def argv_example_def)
  from cache_save_failure_aborts [OF a w, of draw_index rng_zero] a(1) w(5) show ?thesis
    by simp
qed

text \<open>
  C3 fails as stated: in a directory where \<open>T.mtx.jumps\<close> cannot be written, the run on
  the three-state cycle ends with the I/O error of the save and has sampled and written
  nothing, although the tables were built.
\<close>

theorem cache_save_failure_counterexample:
  "snd (get_jumps (world_fresh T_chain) ''T.mtx'' T_chain) = Inr (build_all T_chain) \<and>
   snd (get_jumps (world_readonly_cache T_chain) ''T.mtx'' T_chain) = Inl IOError \<and>
   snd (sample_uniform draw_index (world_readonly_cache T_chain)
       [''sample_uniform.py'', ''T.mtx'', ''micro.dat'', ''100'', ''1'', ''out''] rng_zero) =
     Inl IOError \<and>
   mtx_writes (fst (sample_uniform draw_index (world_readonly_cache T_chain)
       [''sample_uniform.py'', ''T.mtx'', ''micro.dat'', ''100'', ''1'', ''out''] rng_zero)) = []"
  by (simp add: sample_uniform_def py_int_examples main_program_result main_program_mtx_writes
      get_jumps_result world_readonly_cache_def world_fresh_def)

end
